theory Spec2Isabelle
  imports Main
begin

section \<open>The streaming chat session of \<^verbatim>\<open>frontend/src/hooks/useChat.ts\<close>\<close>

text \<open>
  The hook \<^verbatim>\<open>useChat\<close> keeps a transcript, a loading flag, a conversation identifier and
  a reference to the abort controller of the exchange in flight. Its operations are
  \<^verbatim>\<open>sendMessage\<close>, \<^verbatim>\<open>stopStreaming\<close>, \<^verbatim>\<open>resetChat\<close> and \<^verbatim>\<open>regenerateLastResponse\<close>.
  The embedding passes the hook's state explicitly, keeps the local variables of a running
  \<^verbatim>\<open>sendMessage\<close> call in a record of their own, and turns every \<^verbatim>\<open>throw\<close> into a value.

  Strings are lists of code units; the type \<^typ>\<open>char\<close> covers the code units below 256.
\<close>

subsection \<open>Values decoded from a payload\<close>

text \<open>
  What \<^verbatim>\<open>JSON.parse\<close> returns. A number carries its literal as written in the payload: the
  hook never computes with numbers. An object keeps its members in the order of the text.
  \<^verbatim>\<open>undefined\<close> is \<^term>\<open>None\<close> of \<^verbatim>\<open>json option\<close>.
\<close>

datatype json =
    JNull
  | JBool bool
  | JNum string
  | JStr string
  | JArr "json list"
  | JObj "(string \<times> json) list"

type_synonym jsval = "json option"

text \<open>
  The language primitives the hook calls and that are not code of the repository are
  parameters of the model: \<^verbatim>\<open>JSON.parse\<close> (\<^term>\<open>None\<close> when it throws a SyntaxError), the
  conversion to a string that \<^verbatim>\<open>+=\<close> applies to an operand that is not a string
  (\<^term>\<open>None\<close> when it throws a TypeError), and the test whether a number is zero or NaN.
\<close>

record builtins =
  JSON_parse :: "string \<Rightarrow> json option"
  ToString :: "jsval \<Rightarrow> string option"
  Number_falsy :: "string \<Rightarrow> bool"

text \<open>Reading a property \<^verbatim>\<open>parsed.k\<close> of a value other than \<^verbatim>\<open>null\<close>: for an object the last
  member named \<^verbatim>\<open>k\<close>, \<^verbatim>\<open>undefined\<close> when there is none. None of the five names the hook reads
  is inherited by an object, an array, a string, a number or a boolean.\<close>

fun property :: "json \<Rightarrow> string \<Rightarrow> jsval" where
  "property (JObj kvs) k = map_of (rev kvs) k"
| "property _ k = None"

text \<open>\<^verbatim>\<open>!v\<close> is true for \<^verbatim>\<open>undefined\<close>, \<^verbatim>\<open>null\<close>, \<^verbatim>\<open>false\<close>, the empty string, zero and NaN.\<close>

fun falsy :: "builtins \<Rightarrow> jsval \<Rightarrow> bool" where
  "falsy B None = True"
| "falsy B (Some JNull) = True"
| "falsy B (Some (JBool b)) = (\<not> b)"
| "falsy B (Some (JNum n)) = Number_falsy B n"
| "falsy B (Some (JStr s)) = (s = [])"
| "falsy B (Some (JArr xs)) = False"
| "falsy B (Some (JObj kvs)) = False"

text \<open>\<^verbatim>\<open>fullContent += v\<close>: concatenation when \<^verbatim>\<open>v\<close> is a string, otherwise the concatenation
  with the string \<^verbatim>\<open>v\<close> converts to.\<close>

fun js_append :: "builtins \<Rightarrow> string \<Rightarrow> jsval \<Rightarrow> string option" where
  "js_append B acc (Some (JStr f)) = Some (acc @ f)"
| "js_append B acc v = map_option (\<lambda>t. acc @ t) (ToString B v)"

subsection \<open>String primitives\<close>

text \<open>\<^verbatim>\<open>String.prototype.trim\<close> strips white space and line terminators at both ends.\<close>

definition is_space :: "char \<Rightarrow> bool" where
  "is_space c \<longleftrightarrow>
     c \<in> set [CHR 0x09, CHR 0x0A, CHR 0x0B, CHR 0x0C, CHR 0x0D, CHR 0x20, CHR 0xA0]"

definition trim :: "string \<Rightarrow> string" where
  "trim s = rev (dropWhile is_space (rev (dropWhile is_space s)))"

text \<open>\<^verbatim>\<open>chunk.split('\n')\<close>: the pieces between the line feeds, one more than there are line
  feeds.\<close>

fun split_nl :: "string \<Rightarrow> string list" where
  "split_nl [] = [[]]"
| "split_nl (c # cs) =
     (if c = CHR 0x0A then [] # split_nl cs
      else (case split_nl cs of [] \<Rightarrow> [[c]] | l # ls \<Rightarrow> (c # l) # ls))"

text \<open>\<^verbatim>\<open>xs.lastIndexOf(a)\<close>, with \<^term>\<open>None\<close> for \<^verbatim>\<open>-1\<close>.\<close>

fun lastIndexOf :: "'a list \<Rightarrow> 'a \<Rightarrow> nat option" where
  "lastIndexOf [] a = None"
| "lastIndexOf (x # xs) a =
     (case lastIndexOf xs a of
        Some i \<Rightarrow> Some (Suc i)
      | None \<Rightarrow> (if x = a then Some 0 else None))"

subsection \<open>Messages and the state of the hook\<close>

datatype role = user | assistant

text \<open>The interface \<^verbatim>\<open>Message\<close>. The optional fields \<^verbatim>\<open>sources\<close> and \<^verbatim>\<open>isStreaming\<close> are
  \<^term>\<open>None\<close> when absent. The time stamp is a number of the clock.\<close>

record message =
  id_m :: string
  role :: role
  content :: string
  sources :: jsval
  timestamp :: nat
  isStreaming :: "bool option"

text \<open>
  The state cells of the hook (\<^verbatim>\<open>messages\<close>, \<^verbatim>\<open>isLoading\<close>, \<^verbatim>\<open>conversationId\<close>, the
  reference \<^verbatim>\<open>abortControllerRef.current\<close>) and what it does to its surroundings: the abort
  controllers it created (numbered in order of creation; a new one is not aborted) and
  those whose \<^verbatim>\<open>abort()\<close> was called, the requests it sent (message text and conversation identifier), the toasts and
  console errors it raised, the calls of \<^verbatim>\<open>options.onConversationCreated\<close> (the caller
  gave one), and the number of cache invalidations.
\<close>

record state =
  messages :: "message list"
  isLoading :: bool
  conversationId :: jsval
  abortControllerRef :: "nat option"
  controllers :: nat
  aborted :: "nat set"
  requests :: "(string \<times> jsval) list"
  toasts :: "string list"
  consoleErrors :: nat
  created :: "jsval list"
  invalidations :: nat

text \<open>The hook as first rendered with \<^verbatim>\<open>options.conversationId = cid\<close>.\<close>

definition useChat :: "jsval \<Rightarrow> state" where
  "useChat cid =
     \<lparr>messages = [], isLoading = False, conversationId = cid, abortControllerRef = None,
      controllers = 0, aborted = {}, requests = [], toasts = [], consoleErrors = 0,
      created = [], invalidations = 0\<rparr>"

text \<open>
  The local variables of one running call of \<^verbatim>\<open>sendMessage\<close>: the identifier of its
  placeholder, its abort controller, \<^verbatim>\<open>fullContent\<close>, \<^verbatim>\<open>sources\<close>, \<^verbatim>\<open>newConvId\<close>, and the
  \<^verbatim>\<open>conversationId\<close> the closure was created with. The closure reads that constant and
  never the state cell, so it keeps its value for the whole call.
\<close>

record exchange =
  assistantId :: string
  controller :: nat
  closureConversationId :: jsval
  fullContent :: string
  sources_var :: jsval
  newConvId :: jsval

text \<open>What \<^verbatim>\<open>generateId()\<close> and \<^verbatim>\<open>new Date()\<close> return during one call of \<^verbatim>\<open>sendMessage\<close>.\<close>

record drawn =
  userId :: string
  userTime :: nat
  asstId :: string
  asstTime :: nat

subsection \<open>\<^verbatim>\<open>sendMessage\<close>: from the call to the request\<close>

text \<open>
  Lines 45 to 97. The result is \<^term>\<open>None\<close> when the guard of line 45 returns. The call is
  made on the closure of the current render, whose \<^verbatim>\<open>isLoading\<close> and \<^verbatim>\<open>conversationId\<close> are
  those of the state.
\<close>

definition sendMessage_start :: "drawn \<Rightarrow> string \<Rightarrow> state \<Rightarrow> (state \<times> exchange) option" where
  "sendMessage_start d text s =
     (if trim text = [] \<or> isLoading s then None
      else
        let s1 = (case abortControllerRef s of
                    None \<Rightarrow> s
                  | Some c \<Rightarrow> s\<lparr>aborted := insert c (aborted s)\<rparr>);
            c = controllers s1;
            s2 = s1\<lparr>controllers := Suc c, aborted := aborted s1 - {c},
                    abortControllerRef := Some c\<rparr>;
            userMessage = \<lparr>id_m = userId d, role = user, content = trim text,
                           sources = None, timestamp = userTime d, isStreaming = None\<rparr>;
            s3 = s2\<lparr>messages := messages s2 @ [userMessage], isLoading := True\<rparr>;
            assistantMessage = \<lparr>id_m = asstId d, role = assistant, content = [],
                                sources = None, timestamp = asstTime d,
                                isStreaming = Some True\<rparr>;
            s4 = s3\<lparr>messages := messages s3 @ [assistantMessage]\<rparr>;
            s5 = s4\<lparr>requests := requests s4 @ [(trim text, conversationId s)]\<rparr>
        in Some (s5, \<lparr>assistantId = asstId d, controller = c,
                      closureConversationId = conversationId s, fullContent = [],
                      sources_var = Some (JArr []), newConvId = None\<rparr>))"

subsection \<open>The read loop\<close>

text \<open>\<^verbatim>\<open>setMessages((prev) => prev.map((m) => m.id === assistantId ? upd(m) : m))\<close>.\<close>

definition update_message :: "string \<Rightarrow> (message \<Rightarrow> message) \<Rightarrow> state \<Rightarrow> state" where
  "update_message aid upd s =
     s\<lparr>messages := map (\<lambda>m. if id_m m = aid then upd m else m) (messages s)\<rparr>"

datatype thrown = SyntaxError | TypeError | Error jsval

text \<open>
  Lines 124 to 145, the body of the inner \<^verbatim>\<open>try\<close>: parse the payload and dispatch on its
  \<^verbatim>\<open>type\<close>. Every \<^verbatim>\<open>throw\<close> happens before the branch has changed anything.
\<close>

definition try_payload ::
  "builtins \<Rightarrow> string \<Rightarrow> state \<times> exchange \<Rightarrow> thrown + state \<times> exchange" where
  "try_payload B data sx =
     (let (s, x) = sx in
      case JSON_parse B data of
        None \<Rightarrow> Inl SyntaxError
      | Some JNull \<Rightarrow> Inl TypeError
      | Some parsed \<Rightarrow>
          if property parsed ''type'' = Some (JStr ''token'') then
            (case js_append B (fullContent x) (property parsed ''content'') of
               None \<Rightarrow> Inl TypeError
             | Some fc \<Rightarrow>
                 Inr (update_message (assistantId x) (\<lambda>m. m\<lparr>content := fc\<rparr>) s,
                      x\<lparr>fullContent := fc\<rparr>))
          else if property parsed ''type'' = Some (JStr ''sources'') then
            Inr (s, x\<lparr>sources_var := property parsed ''sources''\<rparr>)
          else if property parsed ''type'' = Some (JStr ''conversation_id'') then
            (let x' = x\<lparr>newConvId := property parsed ''conversation_id''\<rparr> in
             if falsy B (closureConversationId x)
             then Inr (s\<lparr>conversationId := newConvId x',
                         created := created s @ [newConvId x']\<rparr>, x')
             else Inr (s, x'))
          else if property parsed ''type'' = Some (JStr ''error'') then
            Inl (Error (property parsed ''message''))
          else Inr (s, x))"

text \<open>
  Lines 119 to 149, one line of a chunk. The \<^verbatim>\<open>catch (e)\<close> of line 146 has an empty body:
  whatever the \<^verbatim>\<open>try\<close> threw, the loop goes on with the next line.
\<close>

definition handle_line :: "builtins \<Rightarrow> string \<Rightarrow> state \<times> exchange \<Rightarrow> state \<times> exchange" where
  "handle_line B line sx =
     (if take 6 line = ''data: '' then
        let data = trim (drop 6 line) in
        if data = ''[DONE]'' then sx
        else (case try_payload B data sx of
                Inl e \<Rightarrow> sx
              | Inr sx' \<Rightarrow> sx')
      else sx)"

text \<open>Lines 115 to 150: the lines of one decoded chunk, in order.\<close>

definition handle_chunk :: "builtins \<Rightarrow> string \<Rightarrow> state \<times> exchange \<Rightarrow> state \<times> exchange" where
  "handle_chunk B chunk sx = fold (handle_line B) (split_nl chunk) sx"

subsection \<open>How a call ends\<close>

text \<open>Lines 154 to 163: the stream is done.\<close>

definition finalize :: "exchange \<Rightarrow> state \<Rightarrow> state" where
  "finalize x s =
     (let s1 = update_message (assistantId x)
                 (\<lambda>m. m\<lparr>content := fullContent x, sources := sources_var x,
                        isStreaming := Some False\<rparr>) s
      in s1\<lparr>invalidations := Suc (invalidations s1)\<rparr>)"

text \<open>What reaches the outer \<^verbatim>\<open>catch\<close>: an error named \<^verbatim>\<open>AbortError\<close>, or any other.\<close>

datatype failure = AbortError | OtherError

definition failure_text :: string where
  "failure_text = ''Desolee, une erreur s'est produite. Veuillez reessayer.''"

definition toast_text :: string where
  "toast_text = ''Erreur lors de la communication avec le serveur''"

text \<open>Lines 164 to 189, the outer \<^verbatim>\<open>catch\<close>.\<close>

definition catch_outer :: "failure \<Rightarrow> exchange \<Rightarrow> state \<Rightarrow> state" where
  "catch_outer e x s =
     (case e of
        AbortError \<Rightarrow> update_message (assistantId x) (\<lambda>m. m\<lparr>isStreaming := Some False\<rparr>) s
      | OtherError \<Rightarrow>
          (let s1 = s\<lparr>consoleErrors := Suc (consoleErrors s),
                      toasts := toasts s @ [toast_text]\<rparr>
           in update_message (assistantId x)
                (\<lambda>m. m\<lparr>content := failure_text, isStreaming := Some False\<rparr>) s1))"

text \<open>Lines 190 to 193, \<^verbatim>\<open>finally\<close>.\<close>

definition finally_outer :: "state \<Rightarrow> state" where
  "finally_outer s = s\<lparr>isLoading := False, abortControllerRef := None\<rparr>"

text \<open>
  How the reading ends once the chunks are delivered: the reader reports \<^verbatim>\<open>done\<close>, or
  \<^verbatim>\<open>reader.read()\<close> rejects.
\<close>

datatype reading = Done | Rejected failure

text \<open>
  Lines 111 to 151 with the end of the call. A read of a request whose controller has been
  aborted rejects with an \<^verbatim>\<open>AbortError\<close>; otherwise it delivers the next chunk, or ends as
  the transport says.
\<close>

fun read_loop ::
  "builtins \<Rightarrow> string list \<Rightarrow> reading \<Rightarrow> state \<times> exchange \<Rightarrow> state" where
  "read_loop B [] r (s, x) =
     (if controller x \<in> aborted s then finally_outer (catch_outer AbortError x s)
      else case r of
             Done \<Rightarrow> finally_outer (finalize x s)
           | Rejected e \<Rightarrow> finally_outer (catch_outer e x s))"
| "read_loop B (chunk # chunks) r (s, x) =
     (if controller x \<in> aborted s then finally_outer (catch_outer AbortError x s)
      else read_loop B chunks r (handle_chunk B chunk (s, x)))"

text \<open>What \<^verbatim>\<open>fetch\<close> gives: it rejects, or answers with a status that is not ok, or without
  a body, or with a body read in chunks of decoded text.\<close>

datatype fetched =
    FetchRejected failure
  | NotOk
  | NoBody
  | Body "string list" reading

text \<open>Lines 88 to 193: the call from the answer of \<^verbatim>\<open>fetch\<close> to its end.\<close>

fun sendMessage_finish :: "builtins \<Rightarrow> fetched \<Rightarrow> state \<times> exchange \<Rightarrow> state" where
  "sendMessage_finish B (FetchRejected e) (s, x) = finally_outer (catch_outer e x s)"
| "sendMessage_finish B NotOk (s, x) = finally_outer (catch_outer OtherError x s)"
| "sendMessage_finish B NoBody (s, x) = finally_outer (catch_outer OtherError x s)"
| "sendMessage_finish B (Body chunks r) (s, x) = read_loop B chunks r (s, x)"

text \<open>A whole call of \<^verbatim>\<open>sendMessage\<close> that nothing interrupts.\<close>

definition sendMessage :: "builtins \<Rightarrow> drawn \<Rightarrow> fetched \<Rightarrow> string \<Rightarrow> state \<Rightarrow> state" where
  "sendMessage B d net text s =
     (case sendMessage_start d text s of
        None \<Rightarrow> s
      | Some sx \<Rightarrow> sendMessage_finish B net sx)"

subsection \<open>The other operations\<close>

text \<open>Lines 199 to 203.\<close>

definition stopStreaming :: "state \<Rightarrow> state" where
  "stopStreaming s =
     (case abortControllerRef s of
        None \<Rightarrow> s
      | Some c \<Rightarrow> s\<lparr>aborted := insert c (aborted s)\<rparr>)"

text \<open>Lines 206 to 210.\<close>

definition resetChat :: "state \<Rightarrow> state" where
  "resetChat s = (stopStreaming s)\<lparr>messages := [], conversationId := None\<rparr>"

text \<open>
  Lines 213 to 226, up to the request of the call of \<^verbatim>\<open>sendMessage\<close> it makes. The second
  component is the exchange that call started, if it started one.
\<close>

definition regenerateLastResponse :: "drawn \<Rightarrow> state \<Rightarrow> state \<times> exchange option" where
  "regenerateLastResponse d s =
     (case find (\<lambda>m. role m = user) (rev (messages s)) of
        None \<Rightarrow> (s, None)
      | Some lastUserMessage \<Rightarrow>
          let prev = messages s;
              s1 = s\<lparr>messages := (case lastIndexOf (map role prev) assistant of
                                     None \<Rightarrow> prev
                                   | Some lastAssistantIdx \<Rightarrow> take lastAssistantIdx prev)\<rparr>
          in case sendMessage_start d (content lastUserMessage) s1 of
               None \<Rightarrow> (s1, None)
             | Some (s2, x) \<Rightarrow> (s2, Some x))"

subsection \<open>Records of the stream\<close>

text \<open>
  The words the properties below use for the lines of a stream. A token record carrying the
  fragment \<open>f\<close> is a line \<^verbatim>\<open>data: <payload>\<close> whose payload parses to an object with
  \<^verbatim>\<open>type\<close> \<^verbatim>\<open>"token"\<close> and \<^verbatim>\<open>content\<close> the string \<open>f\<close>. A malformed record is a line
  \<^verbatim>\<open>data: <payload>\<close> whose payload does not parse. A chunk made of whole records holds
  each of them followed by a line feed.
\<close>

definition token_record :: "builtins \<Rightarrow> string \<Rightarrow> string \<Rightarrow> bool" where
  "token_record B l f \<longleftrightarrow>
     take 6 l = ''data: '' \<and> CHR 0x0A \<notin> set l \<and> trim (drop 6 l) \<noteq> ''[DONE]'' \<and>
     (case JSON_parse B (trim (drop 6 l)) of
        None \<Rightarrow> False
      | Some p \<Rightarrow> property p ''type'' = Some (JStr ''token'') \<and>
                  property p ''content'' = Some (JStr f))"


text \<open>A sources record carrying the value \<open>v\<close>: a line \<^verbatim>\<open>data: <payload>\<close> whose payload
  parses to an object with \<^verbatim>\<open>type\<close> \<^verbatim>\<open>"sources"\<close> and \<^verbatim>\<open>sources\<close> the value \<open>v\<close>.\<close>

definition sources_record :: "builtins \<Rightarrow> string \<Rightarrow> jsval \<Rightarrow> bool" where
  "sources_record B l v \<longleftrightarrow>
     take 6 l = ''data: '' \<and>
     (case JSON_parse B (trim (drop 6 l)) of
        None \<Rightarrow> False
      | Some p \<Rightarrow> property p ''type'' = Some (JStr ''sources'') \<and> property p ''sources'' = v)"

definition chunk_of_records :: "string list \<Rightarrow> string" where
  "chunk_of_records ls = concat (map (\<lambda>l. l @ [CHR 0x0A]) ls)"

subsection \<open>Invariants of a running call\<close>

text \<open>
  While a call of \<^verbatim>\<open>sendMessage\<close> reads its stream, the last message of the transcript is
  its placeholder: it carries the identifier and the content the call holds, no sources,
  and is streaming; the hook is loading and refers to the call's controller, which is not
  aborted.
\<close>

definition in_flight :: "state \<Rightarrow> exchange \<Rightarrow> bool" where
  "in_flight s x \<longleftrightarrow>
     messages s \<noteq> [] \<and>
     id_m (last (messages s)) = assistantId x \<and>
     role (last (messages s)) = assistant \<and>
     content (last (messages s)) = fullContent x \<and>
     sources (last (messages s)) = None \<and>
     isStreaming (last (messages s)) = Some True \<and>
     isLoading s \<and>
     abortControllerRef s = Some (controller x) \<and>
     controller x \<notin> aborted s"

text \<open>What no line of a stream changes.\<close>

definition same_frame :: "state \<times> exchange \<Rightarrow> state \<times> exchange \<Rightarrow> bool" where
  "same_frame sx0 sx \<longleftrightarrow>
     assistantId (snd sx) = assistantId (snd sx0) \<and>
     closureConversationId (snd sx) = closureConversationId (snd sx0) \<and>
     toasts (fst sx) = toasts (fst sx0) \<and>
     consoleErrors (fst sx) = consoleErrors (fst sx0) \<and>
     map id_m (messages (fst sx)) = map id_m (messages (fst sx0)) \<and>
     map role (messages (fst sx)) = map role (messages (fst sx0)) \<and>
     map sources (messages (fst sx)) = map sources (messages (fst sx0)) \<and>
     map isStreaming (messages (fst sx)) = map isStreaming (messages (fst sx0))"

subsection \<open>An instance of the primitives, for the examples\<close>

text \<open>
  The theorems below hold for every choice of the primitives. The examples need one: a
  parser of JSON texts whose numbers are integer literals of at most 15 digits and whose
  strings have no \<^verbatim>\<open>\u\<close> escape. On such texts it answers as \<^verbatim>\<open>JSON.parse\<close> does; on any
  other text it answers \<^term>\<open>None\<close>. It recurses on a counter that bounds the nesting.
\<close>

definition is_json_ws :: "char \<Rightarrow> bool" where
  "is_json_ws c \<longleftrightarrow> c \<in> set [CHR 0x20, CHR 0x09, CHR 0x0A, CHR 0x0D]"

definition skip_ws :: "string \<Rightarrow> string" where
  "skip_ws s = dropWhile is_json_ws s"

definition unescape :: "char \<Rightarrow> char option" where
  "unescape e =
     (if e = CHR 0x22 then Some (CHR 0x22)
      else if e = CHR 0x5C then Some (CHR 0x5C)
      else if e = CHR ''/'' then Some (CHR ''/'')
      else if e = CHR ''b'' then Some (CHR 0x08)
      else if e = CHR ''f'' then Some (CHR 0x0C)
      else if e = CHR ''n'' then Some (CHR 0x0A)
      else if e = CHR ''r'' then Some (CHR 0x0D)
      else if e = CHR ''t'' then Some (CHR 0x09)
      else None)"

fun parse_chars :: "string \<Rightarrow> (string \<times> string) option" where
  "parse_chars [] = None"
| "parse_chars [c] = (if c = CHR 0x22 then Some ([], []) else None)"
| "parse_chars (c # e # cs) =
     (if c = CHR 0x22 then Some ([], e # cs)
      else if c = CHR 0x5C then
        (case unescape e of
           None \<Rightarrow> None
         | Some d \<Rightarrow> map_option (\<lambda>(t, r). (d # t, r)) (parse_chars cs))
      else if (of_char c :: nat) < 0x20 then None
      else map_option (\<lambda>(t, r). (c # t, r)) (parse_chars (e # cs)))"

definition is_digit :: "char \<Rightarrow> bool" where
  "is_digit c \<longleftrightarrow> c \<in> set ''0123456789''"

definition parse_number :: "string \<Rightarrow> (string \<times> string) option" where
  "parse_number s =
     (let sign = takeWhile (\<lambda>c. c = CHR ''-'') (take 1 s);
          ds = takeWhile is_digit (drop (length sign) s)
      in if ds = [] \<or> (1 < length ds \<and> hd ds = CHR ''0'') \<or> 15 < length ds then None
         else Some (sign @ ds, drop (length sign + length ds) s))"

fun parse_value :: "nat \<Rightarrow> string \<Rightarrow> (json \<times> string) option"
and parse_elements :: "nat \<Rightarrow> string \<Rightarrow> (json list \<times> string) option"
and parse_members :: "nat \<Rightarrow> string \<Rightarrow> ((string \<times> json) list \<times> string) option" where
  "parse_value 0 s = None"
| "parse_value (Suc n) s =
     (case skip_ws s of
        [] \<Rightarrow> None
      | c # cs \<Rightarrow>
          if c = CHR ''{'' then
            (case skip_ws cs of
               [] \<Rightarrow> None
             | c' # r \<Rightarrow> if c' = CHR ''}'' then Some (JObj [], r)
                          else map_option (\<lambda>(kvs, r). (JObj kvs, r)) (parse_members n cs))
          else if c = CHR ''['' then
            (case skip_ws cs of
               [] \<Rightarrow> None
             | c' # r \<Rightarrow> if c' = CHR '']'' then Some (JArr [], r)
                          else map_option (\<lambda>(vs, r). (JArr vs, r)) (parse_elements n cs))
          else if c = CHR 0x22 then map_option (\<lambda>(t, r). (JStr t, r)) (parse_chars cs)
          else if take 4 (c # cs) = ''true'' then Some (JBool True, drop 4 (c # cs))
          else if take 5 (c # cs) = ''false'' then Some (JBool False, drop 5 (c # cs))
          else if take 4 (c # cs) = ''null'' then Some (JNull, drop 4 (c # cs))
          else map_option (\<lambda>(l, r). (JNum l, r)) (parse_number (c # cs)))"
| "parse_elements 0 s = None"
| "parse_elements (Suc n) s =
     (case parse_value n s of
        None \<Rightarrow> None
      | Some (v, r) \<Rightarrow>
          (case skip_ws r of
             [] \<Rightarrow> None
           | c # r' \<Rightarrow>
               if c = CHR '','' then map_option (\<lambda>(vs, r). (v # vs, r)) (parse_elements n r')
               else if c = CHR '']'' then Some ([v], r')
               else None))"
| "parse_members 0 s = None"
| "parse_members (Suc n) s =
     (case skip_ws s of
        [] \<Rightarrow> None
      | q # s' \<Rightarrow>
          if q \<noteq> CHR 0x22 then None
          else (case parse_chars s' of
                  None \<Rightarrow> None
                | Some (k, r) \<Rightarrow>
                    (case skip_ws r of
                       [] \<Rightarrow> None
                     | c # r' \<Rightarrow>
                         if c \<noteq> CHR '':'' then None
                         else (case parse_value n r' of
                                 None \<Rightarrow> None
                               | Some (v, r'') \<Rightarrow>
                                   (case skip_ws r'' of
                                      [] \<Rightarrow> None
                                    | c' # r3 \<Rightarrow>
                                        if c' = CHR '','' then
                                          map_option (\<lambda>(kvs, r). ((k, v) # kvs, r))
                                            (parse_members n r3)
                                        else if c' = CHR ''}'' then Some ([(k, v)], r3)
                                        else None)))))"

definition json_parse :: "string \<Rightarrow> json option" where
  "json_parse s =
     (case parse_value (2 * length s + 2) s of
        None \<Rightarrow> None
      | Some (v, r) \<Rightarrow> if skip_ws r = [] then Some v else None)"

text \<open>
  The conversion of a parsed value to a string: an array joins its elements with commas,
  \<^verbatim>\<open>null\<close> elements as empty strings; an object gives \<^verbatim>\<open>[object Object]\<close>, and throws
  when it has a member \<^verbatim>\<open>toString\<close> of its own, which is never a function.
\<close>

fun js_to_string :: "json \<Rightarrow> string option"
and js_join :: "json list \<Rightarrow> string option" where
  "js_to_string JNull = Some ''null''"
| "js_to_string (JBool b) = Some (if b then ''true'' else ''false'')"
| "js_to_string (JNum l) = Some (if l = ''-0'' then ''0'' else l)"
| "js_to_string (JStr t) = Some t"
| "js_to_string (JArr vs) = js_join vs"
| "js_to_string (JObj kvs) =
     (if ''toString'' \<in> set (map fst kvs) then None else Some ''[object Object]'')"
| "js_join [] = Some []"
| "js_join (v # vs) =
     (case (if v = JNull then Some [] else js_to_string v) of
        None \<Rightarrow> None
      | Some t \<Rightarrow> if vs = [] then Some t else map_option (\<lambda>r. t @ '','' @ r) (js_join vs))"

definition js :: builtins where
  "js = \<lparr>JSON_parse = json_parse,
         ToString = (\<lambda>v. case v of None \<Rightarrow> Some ''undefined'' | Some j \<Rightarrow> js_to_string j),
         Number_falsy = (\<lambda>l. l = ''0'' \<or> l = ''-0'')\<rparr>"

subsection \<open>Example inputs\<close>

definition ex_d1 :: drawn where
  "ex_d1 = \<lparr>userId = ''u1'', userTime = 1, asstId = ''a1'', asstTime = 1\<rparr>"

definition ex_d2 :: drawn where
  "ex_d2 = \<lparr>userId = ''u2'', userTime = 2, asstId = ''a2'', asstTime = 2\<rparr>"

definition rec_Hi :: string where
  \<open>rec_Hi = ''data: {"type":"token","content":"Hi"}''\<close>

definition rec_bang :: string where
  \<open>rec_bang = ''data: {"type":"token","content":"!"}''\<close>

definition rec_A1 :: string where
  \<open>rec_A1 = ''data: {"type":"token","content":"A1"}''\<close>

definition rec_error :: string where
  \<open>rec_error = ''data: {"type":"error","message":"X"}''\<close>

definition rec_sources :: string where
  \<open>rec_sources = ''data: {"type":"sources","sources":[{"document_id":"d1","filename":"f.pdf","score":1,"excerpt":"e"}]}''\<close>

definition rec_conv_A :: string where
  \<open>rec_conv_A = ''data: {"type":"conversation_id","conversation_id":"A"}''\<close>

definition rec_conv_B :: string where
  \<open>rec_conv_B = ''data: {"type":"conversation_id","conversation_id":"B"}''\<close>


text \<open>The record \<^term>\<open>rec_Hi\<close> with its line feed, cut in two after the \<^verbatim>\<open>H\<close>.\<close>

definition ex_part1 :: string where
  \<open>ex_part1 = ''data: {"type":"token","content":"H''\<close>

definition ex_part2 :: string where
  \<open>ex_part2 = ''i"}'' @ [CHR 0x0A]\<close>



text \<open>The hook and the running call right after \<^verbatim>\<open>sendMessage("Q1")\<close> on a fresh hook.\<close>

definition ex_s1 :: state where
  "ex_s1 =
     \<lparr>messages =
        [\<lparr>id_m = ''u1'', role = user, content = ''Q1'', sources = None, timestamp = 1,
          isStreaming = None\<rparr>,
         \<lparr>id_m = ''a1'', role = assistant, content = [], sources = None, timestamp = 1,
          isStreaming = Some True\<rparr>],
      isLoading = True, conversationId = None, abortControllerRef = Some 0,
      controllers = 1, aborted = {}, requests = [(''Q1'', None)], toasts = [],
      consoleErrors = 0, created = [], invalidations = 0\<rparr>"

definition ex_x1 :: exchange where
  "ex_x1 =
     \<lparr>assistantId = ''a1'', controller = 0, closureConversationId = None, fullContent = [],
      sources_var = Some (JArr []), newConvId = None\<rparr>"

text \<open>The citation list of \<^term>\<open>rec_sources\<close>.\<close>

definition ex_cited :: jsval where
  "ex_cited = Some (JArr [JObj [(''document_id'', JStr ''d1''), (''filename'', JStr ''f.pdf''),
                               (''score'', JNum ''1''), (''excerpt'', JStr ''e'')]])"

section \<open>Properties\<close>

subsection \<open>Lemmas on the primitives and on one line\<close>

lemma trim_empty_iff: "trim s = [] \<longleftrightarrow> (\<forall>c\<in>set s. is_space c)"
proof
  assume "trim s = []"
  then have "dropWhile is_space s = []"
    unfolding trim_def
    by (metis dropWhile_eq_Nil_conv hd_dropWhile list.set_sel(1) rev_is_Nil_conv set_rev)
  then show "\<forall>c\<in>set s. is_space c" by (simp add: dropWhile_eq_Nil_conv)
next
  assume "\<forall>c\<in>set s. is_space c"
  then have "dropWhile is_space s = []" by (simp add: dropWhile_eq_Nil_conv)
  then show "trim s = []" by (simp add: trim_def del: dropWhile_eq_Nil_conv)
qed

lemma split_nl_not_Nil: "split_nl s \<noteq> []"
  by (induction s) (auto split: list.splits)

lemma split_nl_line:
  "CHR 0x0A \<notin> set l \<Longrightarrow> split_nl (l @ CHR 0x0A # rest) = l # split_nl rest"
  by (induction l) (auto split: list.splits)

lemma lastIndexOf_absent: "a \<notin> set xs \<Longrightarrow> lastIndexOf xs a = None"
  by (induction xs) auto

lemma lastIndexOf_last_occurrence:
  "a \<notin> set ys \<Longrightarrow> lastIndexOf (xs @ a # ys) a = Some (length xs)"
  by (induction xs) (simp_all add: lastIndexOf_absent)

lemma handle_line_blank: "handle_line B [] sx = sx"
  by (simp add: handle_line_def)

lemma start_in_flight:
  "sendMessage_start d text s = Some (s', x) \<Longrightarrow> in_flight s' x"
  by (auto simp: sendMessage_start_def in_flight_def Let_def split: if_splits option.splits)

lemma handle_line_shape:
  "handle_line B l (s, x) = (s, x) \<or>
   (\<exists>fc. handle_line B l (s, x) =
      (update_message (assistantId x) (\<lambda>m. m\<lparr>content := fc\<rparr>) s, x\<lparr>fullContent := fc\<rparr>)) \<or>
   (\<exists>v. handle_line B l (s, x) = (s, x\<lparr>sources_var := v\<rparr>)) \<or>
   (\<exists>w. handle_line B l (s, x) =
      (s\<lparr>conversationId := w, created := created s @ [w]\<rparr>, x\<lparr>newConvId := w\<rparr>)) \<or>
   (\<exists>w. handle_line B l (s, x) = (s, x\<lparr>newConvId := w\<rparr>))"
  by (auto simp: handle_line_def try_payload_def Let_def split: option.splits json.splits sum.splits)

lemma handle_line_in_flight:
  assumes "in_flight s x" "handle_line B l (s, x) = (s', x')"
  shows "in_flight s' x'"
  using handle_line_shape [of B l s x] assms
  by (auto simp: in_flight_def update_message_def last_map)

lemma fold_handle_line_induct:
  assumes "P sx" and "\<And>l s x. P (s, x) \<Longrightarrow> P (handle_line B l (s, x))"
  shows "P (fold (handle_line B) ls sx)"
  using assms(1)
proof (induction ls arbitrary: sx)
  case Nil
  then show ?case by simp
next
  case (Cons l ls)
  obtain s x where sx: "sx = (s, x)" by (cases sx)
  have "P (handle_line B l sx)" using Cons.prems assms(2) sx by simp
  then show ?case using Cons.IH by simp
qed

lemma fold_handle_chunk_induct:
  assumes "P sx" and "\<And>l s x. P (s, x) \<Longrightarrow> P (handle_line B l (s, x))"
  shows "P (fold (handle_chunk B) cs sx)"
  using assms(1)
proof (induction cs arbitrary: sx)
  case Nil
  then show ?case by simp
next
  case (Cons c cs)
  have "P (handle_chunk B c sx)"
    unfolding handle_chunk_def using Cons.prems assms(2) by (rule fold_handle_line_induct)
  then show ?case using Cons.IH by simp
qed

lemma handle_line_live:
  "controller (snd (handle_line B l (s, x))) = controller x \<and>
   aborted (fst (handle_line B l (s, x))) = aborted s"
  using handle_line_shape [of B l s x] by (auto simp: update_message_def)

lemma handle_line_keeps_in_flight:
  "in_flight s x \<Longrightarrow> in_flight (fst (handle_line B l (s, x))) (snd (handle_line B l (s, x)))"
  using handle_line_in_flight [of s x B l] by (cases "handle_line B l (s, x)") simp

lemma split_nl_records:
  "\<forall>l\<in>set ls. CHR 0x0A \<notin> set l \<Longrightarrow> split_nl (chunk_of_records ls) = ls @ [[]]"
  by (induction ls) (simp_all add: chunk_of_records_def split_nl_line)

lemma handle_chunk_records:
  "\<forall>l\<in>set ls. CHR 0x0A \<notin> set l \<Longrightarrow>
   handle_chunk B (chunk_of_records ls) sx = fold (handle_line B) ls sx"
  by (simp add: handle_chunk_def split_nl_records handle_line_blank)

lemma handle_chunks_records:
  "\<forall>l\<in>set (concat groups). CHR 0x0A \<notin> set l \<Longrightarrow>
   fold (handle_chunk B) (map chunk_of_records groups) sx =
   fold (handle_line B) (concat groups) sx"
  by (induction groups arbitrary: sx) (simp_all add: handle_chunk_records)

lemma read_loop_unfold:
  "controller x \<notin> aborted s \<Longrightarrow>
   read_loop B cs r (s, x) =
     (case fold (handle_chunk B) cs (s, x) of
        (s', x') \<Rightarrow>
          (case r of
             Done \<Rightarrow> finally_outer (finalize x' s')
           | Rejected e \<Rightarrow> finally_outer (catch_outer e x' s')))"
proof (induction cs arbitrary: s x)
  case Nil
  then show ?case by simp
next
  case (Cons c cs)
  obtain s1 x1 where h: "handle_chunk B c (s, x) = (s1, x1)" by (cases "handle_chunk B c (s, x)")
  have "controller (snd (handle_chunk B c (s, x))) \<notin> aborted (fst (handle_chunk B c (s, x)))"
    unfolding handle_chunk_def
    by (rule fold_handle_line_induct) (use Cons.prems handle_line_live in auto)
  then have "controller x1 \<notin> aborted s1" using h by simp
  then show ?case using Cons.IH [of x1 s1] Cons.prems h by simp
qed

lemma token_line:
  "token_record B l f \<Longrightarrow>
   handle_line B l (s, x) =
     (update_message (assistantId x) (\<lambda>m. m\<lparr>content := fullContent x @ f\<rparr>) s,
      x\<lparr>fullContent := fullContent x @ f\<rparr>)"
  by (auto simp: token_record_def handle_line_def try_payload_def Let_def
           split: option.splits json.splits)


lemma token_lines:
  "list_all2 (token_record B) ls fs \<Longrightarrow>
   fullContent (snd (fold (handle_line B) ls (s, x))) = fullContent x @ concat fs"
proof (induction ls fs arbitrary: s x rule: list_all2_induct)
  case Nil
  then show ?case by simp
next
  case (Cons l f ls fs)
  then show ?case by (simp add: token_line)
qed

lemma token_records_one_line:
  "list_all2 (token_record B) ls fs \<Longrightarrow> \<forall>l\<in>set ls. CHR 0x0A \<notin> set l"
  by (induction ls fs rule: list_all2_induct) (simp_all add: token_record_def)

lemma map_field_update:
  "(\<And>m. f (u m) = f m) \<Longrightarrow> map (f \<circ> (\<lambda>m. if id_m m = a then u m else m)) ms = map f ms"
  by (induction ms) auto

lemma handle_line_frame:
  "same_frame sx0 (s, x) \<Longrightarrow> same_frame sx0 (handle_line B l (s, x))"
  using handle_line_shape [of B l s x]
  by (auto simp: same_frame_def update_message_def map_field_update)

lemma fold_lines_frame: "same_frame sx (fold (handle_line B) ls sx)"
  by (rule fold_handle_line_induct) (simp_all add: handle_line_frame, simp add: same_frame_def)

lemma fold_chunks_frame: "same_frame sx (fold (handle_chunk B) cs sx)"
  by (rule fold_handle_chunk_induct) (simp_all add: handle_line_frame, simp add: same_frame_def)

lemma fold_lines_in_flight:
  "in_flight s x \<Longrightarrow>
   in_flight (fst (fold (handle_line B) ls (s, x))) (snd (fold (handle_line B) ls (s, x)))"
  by (rule fold_handle_line_induct) (simp_all add: handle_line_keeps_in_flight)

lemma fold_chunks_in_flight:
  "in_flight s x \<Longrightarrow>
   in_flight (fst (fold (handle_chunk B) cs (s, x))) (snd (fold (handle_chunk B) cs (s, x)))"
  by (rule fold_handle_chunk_induct) (simp_all add: handle_line_keeps_in_flight)

lemma finalize_last:
  assumes "in_flight s x"
  shows "messages (finally_outer (finalize x s)) \<noteq> [] \<and>
         last (messages (finally_outer (finalize x s))) =
           (last (messages s))\<lparr>content := fullContent x, sources := sources_var x,
                                isStreaming := Some False\<rparr>"
  using assms
  by (simp add: in_flight_def finalize_def finally_outer_def update_message_def Let_def last_map)

lemma start_some:
  "trim text \<noteq> [] \<Longrightarrow> \<not> isLoading s \<Longrightarrow> \<exists>s1 x1. sendMessage_start d text s = Some (s1, x1) \<and> assistantId x1 = asstId d \<and> fullContent x1 = [] \<and> toasts s1 = toasts s"
  by (auto simp: sendMessage_start_def Let_def split: option.splits)

subsection \<open>Lemmas on whole runs\<close>

lemma start_result:
  assumes "sendMessage_start d text s = Some (s1, x1)"
  shows "trim text \<noteq> [] \<and> \<not> isLoading s \<and>
         messages s1 = messages s @
           [\<lparr>id_m = userId d, role = user, content = trim text, sources = None,
             timestamp = userTime d, isStreaming = None\<rparr>,
            \<lparr>id_m = asstId d, role = assistant, content = [], sources = None,
             timestamp = asstTime d, isStreaming = Some True\<rparr>] \<and>
         assistantId x1 = asstId d \<and> fullContent x1 = [] \<and>
         sources_var x1 = Some (JArr []) \<and>
         closureConversationId x1 = conversationId s \<and>
         toasts s1 = toasts s \<and> conversationId s1 = conversationId s"
  using assms
  by (auto simp: sendMessage_start_def Let_def split: if_splits option.splits)

lemma read_loop_aborted:
  "controller x \<in> aborted s \<Longrightarrow> read_loop B cs r (s, x) = finally_outer (catch_outer AbortError x s)"
  by (cases cs) simp_all

lemma fold_chunks_lines:
  "fold (handle_chunk B) cs sx = fold (handle_line B) (concat (map split_nl cs)) sx"
  by (induction cs arbitrary: sx) (simp_all add: handle_chunk_def)

lemma staged_one_line:
  "sources_var (snd (handle_line B l (s, x))) = sources_var x \<or>
   sources_record B l (sources_var (snd (handle_line B l (s, x))))"
  by (auto simp: handle_line_def try_payload_def sources_record_def Let_def
           split: option.splits json.splits sum.splits)

lemma staged_origin:
  "sources_var (snd (fold (handle_line B) ls (s, x))) = sources_var x \<or>
   (\<exists>l\<in>set ls. sources_record B l (sources_var (snd (fold (handle_line B) ls (s, x)))))"
proof (induction ls arbitrary: s x)
  case Nil
  then show ?case by simp
next
  case (Cons l ls)
  obtain s' x' where h: "handle_line B l (s, x) = (s', x')" by (cases "handle_line B l (s, x)")
  have one: "sources_var x' = sources_var x \<or> sources_record B l (sources_var x')"
    using staged_one_line [of B l s x] h by simp
  show ?case using Cons.IH [of s' x'] one h by auto
qed

lemma map_by_id_and_sources:
  "map id_m xs = map id_m ys \<Longrightarrow> map sources xs = map sources ys \<Longrightarrow>
   map (\<lambda>m. g (id_m m) (sources m)) xs = map (\<lambda>m. g (id_m m) (sources m)) ys"
proof (induction xs arbitrary: ys)
  case Nil
  then show ?case by simp
next
  case (Cons x xs)
  then show ?case by (cases ys) auto
qed

lemma run_whole_records:
  assumes "trim text \<noteq> []" and "\<not> isLoading s"
    and "\<forall>l\<in>set (concat groups). CHR 0x0A \<notin> set l"
  shows "\<exists>s1 x1. sendMessage_start d text s = Some (s1, x1) \<and>
           sendMessage B d (Body (map chunk_of_records groups) Done) text s =
             finally_outer (finalize (snd (fold (handle_line B) (concat groups) (s1, x1)))
                                     (fst (fold (handle_line B) (concat groups) (s1, x1))))"
proof -
  obtain s1 x1 where st: "sendMessage_start d text s = Some (s1, x1)"
    using start_some [of "text" s d] assms(1,2) by blast
  have fl: "in_flight s1 x1" using st by (rule start_in_flight)
  have "sendMessage B d (Body (map chunk_of_records groups) Done) text s =
          finally_outer (finalize (snd (fold (handle_line B) (concat groups) (s1, x1)))
                                  (fst (fold (handle_line B) (concat groups) (s1, x1))))"
    using st fl assms(3)
    by (simp add: sendMessage_def read_loop_unfold in_flight_def handle_chunks_records
             split: prod.splits)
  then show ?thesis using st by blast
qed

lemma finished_run:
  assumes "sendMessage_start d text s = Some (s1, x1)"
    and "sx = fold (handle_line B) ls (s1, x1)"
  shows "content (last (messages (finally_outer (finalize (snd sx) (fst sx))))) =
           fullContent (snd sx) \<and>
         id_m (last (messages (finally_outer (finalize (snd sx) (fst sx))))) = asstId d \<and>
         role (last (messages (finally_outer (finalize (snd sx) (fst sx))))) = assistant \<and>
         isStreaming (last (messages (finally_outer (finalize (snd sx) (fst sx))))) = Some False \<and>
         toasts (finally_outer (finalize (snd sx) (fst sx))) = toasts s"
proof -
  have fl: "in_flight s1 x1" using assms(1) by (rule start_in_flight)
  have fl': "in_flight (fst sx) (snd sx)" unfolding assms(2) using fl by (rule fold_lines_in_flight)
  have "same_frame (s1, x1) sx" unfolding assms(2) by (rule fold_lines_frame)
  then have fr: "assistantId (snd sx) = asstId d" "toasts (fst sx) = toasts s"
    using start_result [OF assms(1)] by (simp_all add: same_frame_def)
  have t: "toasts (finally_outer (finalize (snd sx) (fst sx))) = toasts (fst sx)"
    by (simp add: finally_outer_def finalize_def update_message_def Let_def)
  show ?thesis using finalize_last [OF fl'] fl' fr t by (simp add: in_flight_def)
qed

lemma map_sources_finalize:
  "map sources (messages (finally_outer (finalize x s))) =
   map (\<lambda>m. if id_m m = assistantId x then sources_var x else sources m) (messages s)"
proof -
  have "map sources (map (\<lambda>m. if id_m m = a
                               then m\<lparr>content := c, sources := v, isStreaming := b\<rparr> else m) ms)
        = map (\<lambda>m. if id_m m = a then v else sources m) ms" for a c v b and ms :: "message list"
    by (induction ms) simp_all
  then show ?thesis
    by (simp add: finally_outer_def finalize_def update_message_def Let_def del: map_map)
qed

lemma map_sources_catch:
  "map sources (messages (finally_outer (catch_outer e x s))) = map sources (messages s)"
  by (cases e)
     (simp_all add: finally_outer_def catch_outer_def update_message_def Let_def
                    map_field_update)






subsection \<open>The claims\<close>

text \<open>
  C1, as the specification states it: when the stream yields a decoded \<^verbatim>\<open>error\<close> event,
  processing ends at once, no later event is folded, the content of the streaming message
  is replaced by the fixed failure text, \<^verbatim>\<open>isStreaming\<close> becomes false and no staged
  sources are applied.

  The hook does not do this. The \<^verbatim>\<open>throw new Error(parsed.message)\<close> of line 144 stands
  inside the \<^verbatim>\<open>try\<close> of line 123, whose \<^verbatim>\<open>catch\<close> is empty, so the error never reaches
  the outer \<^verbatim>\<open>catch\<close> that writes the failure text. On the stream
  token \<^verbatim>\<open>Hi\<close>, error \<^verbatim>\<open>X\<close>, token \<^verbatim>\<open>!\<close>, sources, the final message has the content
  \<^verbatim>\<open>Hi!\<close> and the sources, and no toast was raised.
\<close>

theorem error_event_is_swallowed:
  "messages (sendMessage js ex_d1
      (Body [chunk_of_records [rec_Hi, rec_error, rec_bang, rec_sources]] Done) ''Q1''
      (useChat None)) =
   [\<lparr>id_m = ''u1'', role = user, content = ''Q1'', sources = None, timestamp = 1,
      isStreaming = None\<rparr>,
    \<lparr>id_m = ''a1'', role = assistant, content = ''Hi!'',
      sources = Some (JArr [JObj [(''document_id'', JStr ''d1''), (''filename'', JStr ''f.pdf''),
                                  (''score'', JNum ''1''), (''excerpt'', JStr ''e'')]]),
      timestamp = 1, isStreaming = Some False\<rparr>] \<and>
   toasts (sendMessage js ex_d1
      (Body [chunk_of_records [rec_Hi, rec_error, rec_bang, rec_sources]] Done) ''Q1''
      (useChat None)) = []"
  by code_simp

text \<open>
  C2, as the specification states it: \<^verbatim>\<open>regenerate()\<close> on the transcript user \<^verbatim>\<open>Q1\<close>,
  assistant \<^verbatim>\<open>A1\<close> removes the assistant message and submits \<^verbatim>\<open>Q1\<close> again without
  appending a second copy of the user message.

  The hook cuts the transcript at the last assistant message, which keeps the user
  message, and then calls \<^verbatim>\<open>sendMessage\<close>, which appends a user message of its own: the
  transcript afterwards holds \<^verbatim>\<open>Q1\<close> twice, followed by the new placeholder.
\<close>

theorem regenerate_duplicates_user_message:
  "messages (sendMessage js ex_d1 (Body [chunk_of_records [rec_A1]] Done) ''Q1'' (useChat None)) =
     [\<lparr>id_m = ''u1'', role = user, content = ''Q1'', sources = None, timestamp = 1,
        isStreaming = None\<rparr>,
      \<lparr>id_m = ''a1'', role = assistant, content = ''A1'', sources = Some (JArr []),
        timestamp = 1, isStreaming = Some False\<rparr>] \<and>
   messages (fst (regenerateLastResponse ex_d2
     (sendMessage js ex_d1 (Body [chunk_of_records [rec_A1]] Done) ''Q1'' (useChat None)))) =
     [\<lparr>id_m = ''u1'', role = user, content = ''Q1'', sources = None, timestamp = 1,
        isStreaming = None\<rparr>,
      \<lparr>id_m = ''u2'', role = user, content = ''Q1'', sources = None, timestamp = 2,
        isStreaming = None\<rparr>,
      \<lparr>id_m = ''a2'', role = assistant, content = [], sources = None, timestamp = 2,
        isStreaming = Some True\<rparr>]"
  by code_simp

text \<open>
  C3, as the specification states it: a submit with non-empty trimmed text issued while
  a previous exchange is streaming cancels the previous stream and then proceeds. It
  fails on the hook: on the state right after \<^verbatim>\<open>sendMessage("Q1")\<close>, whose placeholder is
  streaming, \<^verbatim>\<open>sendMessage("Q2")\<close> returns at the guard of line 45; the controller of the
  first exchange is not aborted and its placeholder still streams.
\<close>

theorem submit_while_streaming_counterexample:
  "sendMessage_start ex_d1 ''Q1'' (useChat None) = Some (ex_s1, ex_x1) \<and>
   trim ''Q2'' = ''Q2'' \<and>
   sendMessage_start ex_d2 ''Q2'' ex_s1 = None \<and>
   isStreaming (last (messages ex_s1)) = Some True \<and>
   controller ex_x1 \<notin> aborted ex_s1"
  by code_simp

text \<open>
  C3, amended: a submit issued while the hook is loading, that is while a previous
  exchange is streaming, is a no-op. No new exchange starts and the state, with the
  transcript, the controller of the previous exchange and its streaming placeholder, is
  left as it was.
\<close>

theorem submit_while_streaming_noop:
  "isLoading s \<Longrightarrow> sendMessage_start d text s = None \<and> sendMessage B d net text s = s"
  by (simp add: sendMessage_start_def sendMessage_def)

theorem submit_while_streaming_noop_witness:
  "isLoading ex_s1 \<and> sendMessage_start ex_d2 ''Q2'' ex_s1 = None \<and>
   sendMessage js ex_d2 (Body [] Done) ''Q2'' ex_s1 = ex_s1"
proof -
  have h: "isLoading ex_s1" by (simp add: ex_s1_def)
  show ?thesis using h submit_while_streaming_noop [OF h] by simp
qed

text \<open>
  C4, as the specification states it: conversation-identifier events after the first are
  ignored; after \<^verbatim>\<open>conversation_id A\<close> then \<^verbatim>\<open>conversation_id B\<close> on a hook without
  identifier, the identifier is \<^verbatim>\<open>A\<close> and the notification fires for \<^verbatim>\<open>A\<close> only.

  The hook tests \<^verbatim>\<open>!conversationId\<close> on the constant its closure was created with, which
  the call of \<^verbatim>\<open>setConversationId\<close> does not change: the test succeeds for the second
  event as for the first. The identifier ends as \<^verbatim>\<open>B\<close> and the notification fires twice.
\<close>

theorem conversation_id_last_writer_wins:
  "conversationId (sendMessage js ex_d1
      (Body [chunk_of_records [rec_conv_A, rec_conv_B]] Done) ''Q1'' (useChat None)) =
     Some (JStr ''B'') \<and>
   created (sendMessage js ex_d1
      (Body [chunk_of_records [rec_conv_A, rec_conv_B]] Done) ''Q1'' (useChat None)) =
     [Some (JStr ''A''), Some (JStr ''B'')]"
  by code_simp

text \<open>
  C5, as the specification states it: the content of the finalized message is the
  concatenation of the fragments however the stream is cut into chunks, also when a
  record is split across chunks. It fails on the hook, which keeps no text between two
  chunks: the record \<^verbatim>\<open>data: {"type":"token","content":"Hi"}\<close> delivered whole gives the
  content \<^verbatim>\<open>Hi\<close>; cut in two chunks after the \<^verbatim>\<open>H\<close> it gives the empty content, since
  the first part does not parse and the second does not start with \<^verbatim>\<open>data: \<close>.
\<close>

theorem split_record_counterexample:
  "ex_part1 @ ex_part2 = chunk_of_records [rec_Hi] \<and>
   token_record js rec_Hi ''Hi'' \<and>
   content (last (messages (sendMessage js ex_d1
      (Body [chunk_of_records [rec_Hi]] Done) ''Q1'' (useChat None)))) = ''Hi'' \<and>
   content (last (messages (sendMessage js ex_d1
      (Body [ex_part1, ex_part2] Done) ''Q1'' (useChat None)))) = []"
  by code_simp

text \<open>
  C5, amended: for every sequence of token records carrying the fragments \<open>fs\<close>,
  delivered in chunks that each hold whole records (every record lies in one chunk,
  followed by its line feed), the content of the finalized assistant message is the
  concatenation of \<open>fs\<close>, however the records are grouped into chunks.
\<close>

theorem token_concat_whole_records:
  assumes "trim text \<noteq> []" and "\<not> isLoading s"
    and "list_all2 (token_record B) (concat groups) fs"
  shows "content (last (messages
           (sendMessage B d (Body (map chunk_of_records groups) Done) text s))) = concat fs \<and>
         id_m (last (messages
           (sendMessage B d (Body (map chunk_of_records groups) Done) text s))) = asstId d \<and>
         role (last (messages
           (sendMessage B d (Body (map chunk_of_records groups) Done) text s))) = assistant \<and>
         isStreaming (last (messages
           (sendMessage B d (Body (map chunk_of_records groups) Done) text s))) = Some False"
proof -
  have nl: "\<forall>l\<in>set (concat groups). CHR 0x0A \<notin> set l"
    using assms(3) by (rule token_records_one_line)
  obtain s1 x1 where st: "sendMessage_start d text s = Some (s1, x1)"
    and run: "sendMessage B d (Body (map chunk_of_records groups) Done) text s =
             finally_outer (finalize (snd (fold (handle_line B) (concat groups) (s1, x1)))
                                     (fst (fold (handle_line B) (concat groups) (s1, x1))))"
    using run_whole_records [OF assms(1,2) nl] by blast
  have fc: "fullContent (snd (fold (handle_line B) (concat groups) (s1, x1))) = concat fs"
    using token_lines [OF assms(3), of s1 x1] start_result [OF st] by simp
  show ?thesis
    using finished_run [OF st refl, of B "concat groups"] fc unfolding run by simp
qed

theorem token_concat_whole_records_witness:
  "trim ''Q1'' \<noteq> [] \<and> \<not> isLoading (useChat None) \<and>
   list_all2 (token_record js) (concat [[rec_Hi], [], [rec_bang, rec_A1]]) [''Hi'', ''!'', ''A1''] \<and>
   content (last (messages (sendMessage js ex_d1
      (Body (map chunk_of_records [[rec_Hi], [], [rec_bang, rec_A1]]) Done) ''Q1''
      (useChat None)))) = ''Hi!A1''"
proof -
  have h1: "trim ''Q1'' \<noteq> []" by code_simp
  have h2: "\<not> isLoading (useChat None)" by code_simp
  have h3: "list_all2 (token_record js) (concat [[rec_Hi], [], [rec_bang, rec_A1]])
              [''Hi'', ''!'', ''A1'']" by code_simp
  show ?thesis using h1 h2 h3 token_concat_whole_records [OF h1 h2 h3, of ex_d1] by simp
qed

text \<open>
  C6: \<^verbatim>\<open>regenerate()\<close> called while an exchange is streaming, on a transcript that holds a
  user message and whose last assistant message is \<open>a\<close>, followed by user messages \<open>post\<close>
  only. It removes \<open>a\<close> and \<open>post\<close> and starts no new exchange, since the submit it makes
  returns at the guard; nothing else of the state changes. When \<open>a\<close> is the last message,
  as the placeholder of the running exchange is, exactly \<open>a\<close> is removed, which leaves the
  user message before it last and unanswered. No message of the remaining transcript is
  streaming if none before \<open>a\<close> was.
\<close>

theorem regenerate_while_streaming:
  assumes "isLoading s" and "messages s = pre @ a # post"
    and "role a = assistant" and "\<forall>m\<in>set post. role m = user"
    and "\<exists>m\<in>set (messages s). role m = user"
  shows "regenerateLastResponse d s = (s\<lparr>messages := pre\<rparr>, None) \<and>
         (post = [] \<longrightarrow> messages (fst (regenerateLastResponse d s)) @ [a] = messages s) \<and>
         ((\<forall>m\<in>set pre. isStreaming m \<noteq> Some True) \<longrightarrow>
            (\<forall>m\<in>set (messages (fst (regenerateLastResponse d s))). isStreaming m \<noteq> Some True))"
proof -
  obtain u where f: "find (\<lambda>m. role m = user) (rev (messages s)) = Some u"
    using assms(5) by (cases "find (\<lambda>m. role m = user) (rev (messages s))") (auto simp: find_None_iff)
  have "assistant \<notin> set (map role post)" using assms(4) by auto
  then have "lastIndexOf (map role pre @ assistant # map role post) assistant = Some (length (map role pre))"
    by (rule lastIndexOf_last_occurrence)
  then have i: "lastIndexOf (map role (messages s)) assistant = Some (length pre)"
    using assms(2,3) by simp
  have eq: "regenerateLastResponse d s = (s\<lparr>messages := pre\<rparr>, None)"
    using f i assms(1,2)
    by (simp add: regenerateLastResponse_def Let_def sendMessage_start_def)
  show ?thesis unfolding eq using assms(2) by auto
qed

theorem regenerate_while_streaming_witness:
  "isLoading ex_s1 \<and>
   messages (fst (regenerateLastResponse ex_d2 ex_s1)) =
     [\<lparr>id_m = ''u1'', role = user, content = ''Q1'', sources = None, timestamp = 1,
       isStreaming = None\<rparr>] \<and>
   snd (regenerateLastResponse ex_d2 ex_s1) = None"
proof -
  have h1: "isLoading ex_s1" by (simp add: ex_s1_def)
  have h2: "messages ex_s1 =
              [\<lparr>id_m = ''u1'', role = user, content = ''Q1'', sources = None, timestamp = 1,
                isStreaming = None\<rparr>] @
              \<lparr>id_m = ''a1'', role = assistant, content = [], sources = None, timestamp = 1,
                isStreaming = Some True\<rparr> # []"
    by (simp add: ex_s1_def)
  have h3: "role \<lparr>id_m = ''a1'', role = assistant, content = [], sources = None, timestamp = 1,
                  isStreaming = Some True\<rparr> = assistant" by simp
  have h4: "\<forall>m\<in>set ([] :: message list). role m = user" by simp
  have h5: "\<exists>m\<in>set (messages ex_s1). role m = user" by (simp add: ex_s1_def)
  show ?thesis
    using h1 regenerate_while_streaming [OF h1 h2 h3 h4 h5, of ex_d2] by simp
qed

text \<open>
  C7: \<^verbatim>\<open>stop()\<close> called after any chunks \<open>delivered\<close> of a stream have been folded, whatever
  the transport would still have delivered (\<open>rest\<close>, \<open>r\<close>). The read in flight rejects with
  an \<^verbatim>\<open>AbortError\<close> and the call ends: the messages carrying the placeholder's identifier
  get \<^verbatim>\<open>isStreaming = false\<close> and nothing else of the transcript changes. The placeholder
  is the last message; it keeps the content accumulated so far and has no sources. When
  the identifier drawn for the placeholder is fresh, all messages before it are
  unchanged. The conversation identifier, the toasts and the console errors are those
  before the stop, and the hook is no longer loading.
\<close>

theorem stop_mid_stream:
  assumes "sendMessage_start d text s0 = Some (s1, x1)"
    and "fold (handle_chunk B) delivered (s1, x1) = (s2, x2)"
  shows "messages (read_loop B rest r (stopStreaming s2, x2)) =
           map (\<lambda>m. if id_m m = asstId d then m\<lparr>isStreaming := Some False\<rparr> else m)
             (messages s2) \<and>
         last (messages (read_loop B rest r (stopStreaming s2, x2))) =
           (last (messages s2))\<lparr>isStreaming := Some False\<rparr> \<and>
         id_m (last (messages s2)) = asstId d \<and>
         content (last (messages s2)) = fullContent x2 \<and>
         sources (last (messages s2)) = None \<and>
         (asstId d \<notin> set (map id_m (messages s0)) \<and> asstId d \<noteq> userId d \<longrightarrow>
            butlast (messages (read_loop B rest r (stopStreaming s2, x2))) =
            butlast (messages s2)) \<and>
         conversationId (read_loop B rest r (stopStreaming s2, x2)) = conversationId s2 \<and>
         toasts (read_loop B rest r (stopStreaming s2, x2)) = toasts s2 \<and>
         consoleErrors (read_loop B rest r (stopStreaming s2, x2)) = consoleErrors s2 \<and>
         isLoading (read_loop B rest r (stopStreaming s2, x2)) = False"
proof -
  have fl: "in_flight s1 x1" using assms(1) by (rule start_in_flight)
  have fl2: "in_flight s2 x2" using fold_chunks_in_flight [OF fl, of B delivered] assms(2) by simp
  have fr: "same_frame (s1, x1) (s2, x2)" using fold_chunks_frame [of "(s1, x1)" B delivered] assms(2) by simp
  have aid: "assistantId x2 = asstId d"
    using fr start_result [OF assms(1)] by (simp add: same_frame_def)
  have ids: "map id_m (messages s2) = map id_m (messages s0) @ [userId d, asstId d]"
    using fr start_result [OF assms(1)] by (simp add: same_frame_def)
  have stop: "stopStreaming s2 = s2\<lparr>aborted := insert (controller x2) (aborted s2)\<rparr>"
    using fl2 by (simp add: stopStreaming_def in_flight_def)
  define s3 where "s3 = read_loop B rest r (stopStreaming s2, x2)"
  have s3: "s3 = finally_outer (catch_outer AbortError x2 (stopStreaming s2))"
    unfolding s3_def by (rule read_loop_aborted) (simp add: stop)
  have m: "messages s3 =
           map (\<lambda>m. if id_m m = asstId d then m\<lparr>isStreaming := Some False\<rparr> else m) (messages s2)"
    by (simp add: s3 stop aid finally_outer_def catch_outer_def update_message_def)
  have l: "last (messages s3) = (last (messages s2))\<lparr>isStreaming := Some False\<rparr>"
    using fl2 aid by (simp add: m in_flight_def last_map)
  have b: "butlast (messages s3) = butlast (messages s2)"
    if "asstId d \<notin> set (map id_m (messages s0)) \<and> asstId d \<noteq> userId d"
  proof -
    have bi: "map id_m (butlast (messages s2)) = map id_m (messages s0) @ [userId d]"
      using ids by (simp add: map_butlast butlast_append)
    have "\<forall>m\<in>set (butlast (messages s2)). id_m m \<noteq> asstId d"
    proof -
      have "set (map id_m (butlast (messages s2))) = set (map id_m (messages s0)) \<union> {userId d}"
        by (simp add: bi)
      then have "asstId d \<notin> set (map id_m (butlast (messages s2)))" using that by simp
      then show ?thesis by (metis image_eqI list.set_map)
    qed
    then have "map (\<lambda>m. if id_m m = asstId d then m\<lparr>isStreaming := Some False\<rparr> else m)
                 (butlast (messages s2)) = butlast (messages s2)"
      by (intro map_idI) simp
    then show ?thesis by (simp add: m map_butlast [symmetric])
  qed
  have rest: "conversationId s3 = conversationId s2 \<and> toasts s3 = toasts s2 \<and>
              consoleErrors s3 = consoleErrors s2 \<and> isLoading s3 = False"
    by (simp add: s3 stop finally_outer_def catch_outer_def update_message_def)
  show ?thesis
    using m l b rest fl2 aid unfolding s3_def by (simp add: in_flight_def)
qed

theorem stop_mid_stream_witness:
  "sendMessage_start ex_d1 ''Q1'' (useChat None) = Some (ex_s1, ex_x1) \<and>
   asstId ex_d1 \<notin> set (map id_m (messages (useChat None))) \<and> asstId ex_d1 \<noteq> userId ex_d1 \<and>
   messages (read_loop js [chunk_of_records [rec_bang]] Done
     (stopStreaming (fst (fold (handle_chunk js) [chunk_of_records [rec_Hi]] (ex_s1, ex_x1))),
      snd (fold (handle_chunk js) [chunk_of_records [rec_Hi]] (ex_s1, ex_x1)))) =
     [\<lparr>id_m = ''u1'', role = user, content = ''Q1'', sources = None, timestamp = 1,
       isStreaming = None\<rparr>,
      \<lparr>id_m = ''a1'', role = assistant, content = ''Hi'', sources = None, timestamp = 1,
       isStreaming = Some False\<rparr>]"
proof -
  have h: "sendMessage_start ex_d1 ''Q1'' (useChat None) = Some (ex_s1, ex_x1)" by code_simp
  have f: "fold (handle_chunk js) [chunk_of_records [rec_Hi]] (ex_s1, ex_x1) =
           (fst (fold (handle_chunk js) [chunk_of_records [rec_Hi]] (ex_s1, ex_x1)),
            snd (fold (handle_chunk js) [chunk_of_records [rec_Hi]] (ex_s1, ex_x1)))" by simp
  have i: "asstId ex_d1 \<notin> set (map id_m (messages (useChat None))) \<and> asstId ex_d1 \<noteq> userId ex_d1"
    by code_simp
  have e: "messages (read_loop js [chunk_of_records [rec_bang]] Done
     (stopStreaming (fst (fold (handle_chunk js) [chunk_of_records [rec_Hi]] (ex_s1, ex_x1))),
      snd (fold (handle_chunk js) [chunk_of_records [rec_Hi]] (ex_s1, ex_x1)))) =
     [\<lparr>id_m = ''u1'', role = user, content = ''Q1'', sources = None, timestamp = 1,
       isStreaming = None\<rparr>,
      \<lparr>id_m = ''a1'', role = assistant, content = ''Hi'', sources = None, timestamp = 1,
       isStreaming = Some False\<rparr>]" by code_simp
  show ?thesis
    using h i e stop_mid_stream [OF h f, of "[chunk_of_records [rec_bang]]" Done] by simp
qed

text \<open>
  C8: from the start of an exchange on, no line of the stream changes the \<^verbatim>\<open>sources\<close> field
  of any message: after every prefix of the lines the fields are those at the start, where
  the two new messages have none. Only the end of the stream writes the field, on the
  messages carrying the placeholder's identifier, with one value \<open>v\<close>: the empty list, or
  the whole \<^verbatim>\<open>sources\<close> value of one sources record of the stream. A call that ends in the
  outer \<^verbatim>\<open>catch\<close> leaves the fields as they were.
\<close>

theorem sources_absent_until_finalized:
  assumes "sendMessage_start d text s0 = Some (s1, x1)"
  shows "map sources (messages s1) = map sources (messages s0) @ [None, None] \<and>
         (\<forall>n. map sources (messages (fst (fold (handle_line B)
                 (take n (concat (map split_nl chunks))) (s1, x1)))) =
               map sources (messages s1)) \<and>
         (\<exists>v. (v = Some (JArr []) \<or>
                (\<exists>l\<in>set (concat (map split_nl chunks)). sources_record B l v)) \<and>
              map sources (messages (read_loop B chunks Done (s1, x1))) =
                map (\<lambda>m. if id_m m = asstId d then v else sources m) (messages s1)) \<and>
         map sources (messages (read_loop B chunks (Rejected e) (s1, x1))) =
           map sources (messages s1)"
proof -
  have fl: "in_flight s1 x1" using assms by (rule start_in_flight)
  have live: "controller x1 \<notin> aborted s1" using fl by (simp add: in_flight_def)
  define ls where "ls = concat (map split_nl chunks)"
  define sx where "sx = fold (handle_line B) ls (s1, x1)"
  have sx: "fold (handle_chunk B) chunks (s1, x1) = sx"
    by (simp add: sx_def ls_def fold_chunks_lines)
  have fr: "same_frame (s1, x1) sx" unfolding sx_def by (rule fold_lines_frame)
  have rD: "read_loop B chunks Done (s1, x1) = finally_outer (finalize (snd sx) (fst sx))"
    using read_loop_unfold [OF live, of B chunks Done] by (simp add: sx case_prod_beta)
  have rR: "read_loop B chunks (Rejected e) (s1, x1) =
            finally_outer (catch_outer e (snd sx) (fst sx))"
    using read_loop_unfold [OF live, of B chunks "Rejected e"] by (simp add: sx case_prod_beta)
  have a: "map sources (messages s1) = map sources (messages s0) @ [None, None]"
    using start_result [OF assms] by simp
  have b: "map sources (messages (fst (fold (handle_line B) (take n ls) (s1, x1)))) =
           map sources (messages s1)" for n
    using fold_lines_frame [of "(s1, x1)" B "take n ls"] by (simp add: same_frame_def)
  have same_ids: "map id_m (messages (fst sx)) = map id_m (messages s1)"
    and same_sources: "map sources (messages (fst sx)) = map sources (messages s1)"
    using fr by (simp_all add: same_frame_def)
  have aid: "assistantId (snd sx) = asstId d"
    using fr start_result [OF assms] by (simp add: same_frame_def)
  have v: "sources_var (snd sx) = Some (JArr []) \<or>
           (\<exists>l\<in>set ls. sources_record B l (sources_var (snd sx)))"
    using staged_origin [of B ls s1 x1] start_result [OF assms] by (simp add: sx_def)
  have "map sources (messages (finally_outer (finalize (snd sx) (fst sx)))) =
        map (\<lambda>m. if id_m m = asstId d then sources_var (snd sx) else sources m) (messages (fst sx))"
    using map_sources_finalize [of "snd sx" "fst sx"] by (simp only: aid)
  also have "\<dots> = map (\<lambda>m. if id_m m = asstId d then sources_var (snd sx) else sources m)
                     (messages s1)"
    using map_by_id_and_sources [OF same_ids same_sources,
            where g = "\<lambda>i v. if i = asstId d then sources_var (snd sx) else v"]
    by simp
  finally have c: "map sources (messages (read_loop B chunks Done (s1, x1))) =
        map (\<lambda>m. if id_m m = asstId d then sources_var (snd sx) else sources m) (messages s1)"
    by (simp only: rD)
  have "map sources (messages (finally_outer (catch_outer e (snd sx) (fst sx)))) =
        map sources (messages (fst sx))"
    by (rule map_sources_catch)
  then have d: "map sources (messages (read_loop B chunks (Rejected e) (s1, x1))) =
                map sources (messages s1)"
    using fr by (simp add: rR same_frame_def)
  have c': "\<exists>v. (v = Some (JArr []) \<or> (\<exists>l\<in>set ls. sources_record B l v)) \<and>
              map sources (messages (read_loop B chunks Done (s1, x1))) =
                map (\<lambda>m. if id_m m = asstId d then v else sources m) (messages s1)"
    using v c by (intro exI [of _ "sources_var (snd sx)"] conjI)
  show ?thesis
    unfolding ls_def [symmetric]
    by (intro conjI allI) (rule a, rule b, rule c', rule d)
qed

theorem sources_absent_until_finalized_witness:
  "sendMessage_start ex_d1 ''Q1'' (useChat None) = Some (ex_s1, ex_x1) \<and>
   map sources (messages (fst (fold (handle_line js)
      (take 2 (concat (map split_nl [chunk_of_records [rec_Hi, rec_sources, rec_bang]])))
      (ex_s1, ex_x1)))) = [None, None] \<and>
   map sources (messages (read_loop js [chunk_of_records [rec_Hi, rec_sources, rec_bang]] Done
      (ex_s1, ex_x1))) = [None, ex_cited]"
proof -
  have h: "sendMessage_start ex_d1 ''Q1'' (useChat None) = Some (ex_s1, ex_x1)" by code_simp
  have e: "map sources (messages (read_loop js [chunk_of_records [rec_Hi, rec_sources, rec_bang]]
             Done (ex_s1, ex_x1))) = [None, ex_cited]" by code_simp
  have m: "map sources (messages ex_s1) = [None, None]" by code_simp
  show ?thesis
    using h e m
      sources_absent_until_finalized [OF h, of js "[chunk_of_records [rec_Hi, rec_sources, rec_bang]]"]
    by simp
qed

text \<open>
  C9: the trimmed text is empty exactly when the text consists of white space only. A
  submit of such a text starts nothing and leaves the state as it is. A submit of any
  other text while the hook is not loading appends to the transcript the user message
  with the trimmed text and then the assistant placeholder with empty content and
  \<^verbatim>\<open>isStreaming = true\<close>, in that order, and nothing more.
\<close>

theorem submit_blank_noop_else_appends_pair:
  "(trim text = [] \<longleftrightarrow> (\<forall>c\<in>set text. is_space c)) \<and>
   (trim text = [] \<longrightarrow>
      sendMessage_start d text s = None \<and> sendMessage B d net text s = s) \<and>
   (trim text \<noteq> [] \<and> \<not> isLoading s \<longrightarrow>
      (\<exists>s1 x1. sendMessage_start d text s = Some (s1, x1) \<and>
         messages s1 = messages s @
           [\<lparr>id_m = userId d, role = user, content = trim text, sources = None,
             timestamp = userTime d, isStreaming = None\<rparr>,
            \<lparr>id_m = asstId d, role = assistant, content = [], sources = None,
             timestamp = asstTime d, isStreaming = Some True\<rparr>]))"
proof (intro conjI impI)
  show "trim text = [] \<longleftrightarrow> (\<forall>c\<in>set text. is_space c)" by (rule trim_empty_iff)
next
  assume "trim text = []"
  then show "sendMessage_start d text s = None"  by (simp add: sendMessage_start_def)
next
  assume "trim text = []"
  then show "sendMessage B d net text s = s" by (simp add: sendMessage_start_def sendMessage_def)
next
  assume h: "trim text \<noteq> [] \<and> \<not> isLoading s"
  then obtain s1 x1 where st: "sendMessage_start d text s = Some (s1, x1)"
    using start_some [of "text" s d] by blast
  then show "\<exists>s1 x1. sendMessage_start d text s = Some (s1, x1) \<and>
         messages s1 = messages s @
           [\<lparr>id_m = userId d, role = user, content = trim text, sources = None,
             timestamp = userTime d, isStreaming = None\<rparr>,
            \<lparr>id_m = asstId d, role = assistant, content = [], sources = None,
             timestamp = asstTime d, isStreaming = Some True\<rparr>]"
    using start_result [OF st] by blast
qed

theorem submit_blank_noop_else_appends_pair_witness:
  "trim [CHR 0x20, CHR 0x09] = [] \<and>
   sendMessage_start ex_d1 [CHR 0x20, CHR 0x09] (useChat None) = None \<and>
   trim '' Q1 '' \<noteq> [] \<and> \<not> isLoading (useChat None) \<and>
   sendMessage_start ex_d1 '' Q1 '' (useChat None) = Some (ex_s1, ex_x1)"
proof -
  have h1: "trim [CHR 0x20, CHR 0x09] = []" by code_simp
  have h2: "trim '' Q1 '' \<noteq> [] \<and> \<not> isLoading (useChat None)" by code_simp
  have h3: "sendMessage_start ex_d1 '' Q1 '' (useChat None) = Some (ex_s1, ex_x1)" by code_simp
  show ?thesis
    using h1 h2 h3
      submit_blank_noop_else_appends_pair [of "[CHR 0x20, CHR 0x09]" ex_d1 "useChat None" js NoBody]
      submit_blank_noop_else_appends_pair [of "'' Q1 ''" ex_d1 "useChat None" js NoBody]
    by simp
qed




end
